theory Spec2Isabelle
  imports Complex_Main "HOL-Library.Multiset"
begin

section \<open>The report model of \<open>rp/report.go\<close>\<close>

text \<open>
  The package reads a directory of JUnit XML files into a slice of \<open>xmlSuite\<close>
  values, sorts the slice by the suites' start times and answers index-addressed
  queries over it. The embedding follows \<open>report.go\<close> function by function.

  Instants and spans. A Go \<open>time.Time\<close> that carries no monotonic reading is an
  instant, and a \<open>time.Duration\<close> is a count of nanoseconds. Both are integers here:
  an instant is the number of nanoseconds since the zero time. \<open>Time.Before\<close> is
  the order of instants and \<open>Time.Add\<close> is addition (the library saturates only
  beyond the range of 64-bit seconds, which a four-digit year plus a 64-bit
  nanosecond span never reaches).
\<close>

type_synonym Time = int
type_synonym Duration = int

definition Before :: "Time \<Rightarrow> Time \<Rightarrow> bool" where
  "Before t u = (t < u)"

definition Add :: "Time \<Rightarrow> Duration \<Rightarrow> Time" where
  "Add t d = t + d"

text \<open>
  The decode targets. \<open>float64\<close> is the type parameter \<open>'f\<close>: the code never
  computes with a float itself, it only hands the value to \<open>secondsToDuration\<close>.
  A Go \<open>int\<close> is only compared with zero, so it is an \<open>int\<close>. The pointer
  \<open>*xmlFailure\<close> is an option, \<open>None\<close> for \<open>nil\<close>.
\<close>

record xmlFailure =
  Type :: string
  Message :: string
  Details :: string

record 'f xmlTest =
  Name :: string
  ClassName :: string
  Time :: 'f
  Failure :: "xmlFailure option"

record 'f xmlSuite =
  XMLName :: string
  ID :: int
  Name :: string
  PackageName :: string
  TimeStamp :: string
  Time :: 'f
  HostName :: string
  Tests :: int
  Failures :: int
  Errors :: int
  Properties :: unit
  Cases :: "'f xmlTest list"
  SystemOut :: string
  SystemErr :: string

record 'f XMLReport =
  xmlSuites :: "'f xmlSuite list"

text \<open>
  Modelled from the spec: the types \<open>TestItem\<close>, \<open>ExecutionResult\<close> and
  \<open>LogMessage\<close> and their constants are declared in a file of the package that is
  not part of the sources at hand. Their fields are the ones \<open>report.go\<close> assigns;
  the constants are the ones it names (item types SUITE and STEP, statuses PASSED,
  FAILED and SKIPPED, log levels error and info).
\<close>

datatype TestItemType = TestItemTypeSuite | TestItemTypeStep

datatype ExecutionStatus =
  ExecutionStatusPassed | ExecutionStatusFailed | ExecutionStatusSkipped

datatype LogLevel = LogLevelError | LogLevelInfo

record TestItem =
  Type :: TestItemType
  StartTime :: Time
  Name :: string
  Description :: string

record ExecutionResult =
  EndTime :: Time
  Status :: ExecutionStatus

record LogMessage =
  Time :: Time
  Level :: LogLevel
  Message :: string

subsection \<open>Run-time panics\<close>

text \<open>
  Indexing a slice out of range and reading a field through a nil pointer stop a
  Go program with a run-time panic. Every query returns \<open>panic + 'a\<close>, \<open>Inl\<close>
  for the panic. Indices are Go \<open>int\<close>s, so they may be negative.
\<close>

datatype panic = IndexOutOfRange | NilPointerDereference

definition index :: "'a list \<Rightarrow> int \<Rightarrow> panic + 'a" where
  "index xs i =
     (if 0 \<le> i \<and> i < int (length xs) then Inr (xs ! nat i) else Inl IndexOutOfRange)"

subsection \<open>The queries\<close>

text \<open>
  \<open>parseTimeStamp\<close> and \<open>secondsToDuration\<close> are functions of the package
  whose bodies are not in \<open>report.go\<close>; every query takes them as parameters, so a
  theorem holds for whatever they compute.
\<close>

definition SuitesCount :: "'f XMLReport \<Rightarrow> int" where
  "SuitesCount report = int (length (xmlSuites report))"

definition TesCaseCount :: "'f XMLReport \<Rightarrow> int \<Rightarrow> panic + int" where
  "TesCaseCount report i =
     (case index (xmlSuites report) i of
        Inl p \<Rightarrow> Inl p
      | Inr s \<Rightarrow> Inr (int (length (Cases s))))"

definition LaunchStartTime :: "(string \<Rightarrow> Time) \<Rightarrow> 'f XMLReport \<Rightarrow> panic + Time" where
  "LaunchStartTime parseTimeStamp report =
     (case index (xmlSuites report) 0 of
        Inl p \<Rightarrow> Inl p
      | Inr s \<Rightarrow> Inr (parseTimeStamp (TimeStamp s)))"

definition LaunchEndTime ::
  "(string \<Rightarrow> Time) \<Rightarrow> ('f \<Rightarrow> Duration) \<Rightarrow> 'f XMLReport \<Rightarrow> panic + Time" where
  "LaunchEndTime parseTimeStamp secondsToDuration report =
     (let lastIndex = int (length (xmlSuites report)) - 1 in
      case index (xmlSuites report) lastIndex of
        Inl p \<Rightarrow> Inl p
      | Inr s1 \<Rightarrow>
          (let lastSuiteStart = parseTimeStamp (TimeStamp s1) in
           case index (xmlSuites report) lastIndex of
             Inl p \<Rightarrow> Inl p
           | Inr s2 \<Rightarrow>
               (let d = secondsToDuration (xmlSuite.Time s2) in
                Inr (Add lastSuiteStart d))))"

definition SuiteResult ::
  "(string \<Rightarrow> Time) \<Rightarrow> ('f \<Rightarrow> Duration) \<Rightarrow> 'f XMLReport \<Rightarrow> int \<Rightarrow> panic + ExecutionResult"
  where
  "SuiteResult parseTimeStamp secondsToDuration report i =
     (case index (xmlSuites report) i of
        Inl p \<Rightarrow> Inl p
      | Inr xSuite \<Rightarrow>
          (let suiteStart = parseTimeStamp (TimeStamp xSuite);
               d = secondsToDuration (xmlSuite.Time xSuite);
               suiteEnd = Add suiteStart d;
               status =
                 (if Tests xSuite = 0 then ExecutionStatusSkipped
                  else if Failures xSuite > 0 then ExecutionStatusFailed
                  else if Errors xSuite > 0 then ExecutionStatusFailed
                  else ExecutionStatusPassed)
           in Inr \<lparr>EndTime = suiteEnd, Status = status\<rparr>))"

definition TestCase ::
  "(string \<Rightarrow> Time) \<Rightarrow> 'f XMLReport \<Rightarrow> int \<Rightarrow> int \<Rightarrow> panic + TestItem" where
  "TestCase parseTimeStamp report i j =
     (case index (xmlSuites report) i of
        Inl p \<Rightarrow> Inl p
      | Inr xSuite \<Rightarrow>
          (let suiteStart = parseTimeStamp (TimeStamp xSuite) in
           case index (Cases xSuite) j of
             Inl p \<Rightarrow> Inl p
           | Inr xCase \<Rightarrow>
               Inr \<lparr>TestItem.Type = TestItemTypeStep, StartTime = suiteStart,
                    TestItem.Name = xmlTest.Name xCase, Description = []\<rparr>))"

definition TestCaseResult ::
  "(string \<Rightarrow> Time) \<Rightarrow> ('f \<Rightarrow> Duration) \<Rightarrow> 'f XMLReport \<Rightarrow> int \<Rightarrow> int
     \<Rightarrow> panic + ExecutionResult" where
  "TestCaseResult parseTimeStamp secondsToDuration report i j =
     (case index (xmlSuites report) i of
        Inl p \<Rightarrow> Inl p
      | Inr xSuite \<Rightarrow>
          (let suiteStart = parseTimeStamp (TimeStamp xSuite) in
           case index (Cases xSuite) j of
             Inl p \<Rightarrow> Inl p
           | Inr xCase \<Rightarrow>
               (let d = secondsToDuration (xmlTest.Time xCase);
                    xCaseEnd = Add suiteStart d;
                    status =
                      (if Failure xCase \<noteq> None then ExecutionStatusFailed
                       else ExecutionStatusPassed)
                in Inr \<lparr>EndTime = xCaseEnd, Status = status\<rparr>)))"

definition HasTestCaseFailure :: "'f XMLReport \<Rightarrow> int \<Rightarrow> int \<Rightarrow> panic + bool" where
  "HasTestCaseFailure report i j =
     (case index (xmlSuites report) i of
        Inl p \<Rightarrow> Inl p
      | Inr xSuite \<Rightarrow>
          (case index (Cases xSuite) j of
             Inl p \<Rightarrow> Inl p
           | Inr xCase \<Rightarrow> Inr (Failure xCase \<noteq> None)))"

definition TestCaseFailure ::
  "(string \<Rightarrow> Time) \<Rightarrow> ('f \<Rightarrow> Duration) \<Rightarrow> 'f XMLReport \<Rightarrow> int \<Rightarrow> int
     \<Rightarrow> panic + LogMessage" where
  "TestCaseFailure parseTimeStamp secondsToDuration report i j =
     (case index (xmlSuites report) i of
        Inl p \<Rightarrow> Inl p
      | Inr xSuite \<Rightarrow>
          (let suiteStart = parseTimeStamp (TimeStamp xSuite) in
           case index (Cases xSuite) j of
             Inl p \<Rightarrow> Inl p
           | Inr xCase \<Rightarrow>
               (let d = secondsToDuration (xmlTest.Time xCase);
                    xCaseEnd = Add suiteStart d
                in case Failure xCase of
                     None \<Rightarrow> Inl NilPointerDereference
                   | Some fl \<Rightarrow>
                       Inr \<lparr>LogMessage.Time = xCaseEnd, Level = LogLevelError,
                            LogMessage.Message = xmlFailure.Message fl\<rparr>)))"

definition TestCaseFailureDetails ::
  "(string \<Rightarrow> Time) \<Rightarrow> ('f \<Rightarrow> Duration) \<Rightarrow> 'f XMLReport \<Rightarrow> int \<Rightarrow> int
     \<Rightarrow> panic + LogMessage" where
  "TestCaseFailureDetails parseTimeStamp secondsToDuration report i j =
     (case index (xmlSuites report) i of
        Inl p \<Rightarrow> Inl p
      | Inr xSuite \<Rightarrow>
          (let suiteStart = parseTimeStamp (TimeStamp xSuite) in
           case index (Cases xSuite) j of
             Inl p \<Rightarrow> Inl p
           | Inr xCase \<Rightarrow>
               (let d = secondsToDuration (xmlTest.Time xCase);
                    xCaseEnd = Add suiteStart d
                in case Failure xCase of
                     None \<Rightarrow> Inl NilPointerDereference
                   | Some fl \<Rightarrow>
                       Inr \<lparr>LogMessage.Time = xCaseEnd, Level = LogLevelInfo,
                            LogMessage.Message = Details fl\<rparr>)))"

section \<open>The loader\<close>

subsection \<open>The outside world\<close>

text \<open>
  A Go \<open>error\<close> is a value. \<open>errors.New\<close> makes an \<open>errorString\<close>; the
  operating system's calls fail with a \<open>PathError\<close> (operation, path, cause);
  whatever \<open>xml.Unmarshal\<close> rejects is an \<open>UnmarshalError\<close>.
\<close>

datatype error =
  errorString string
  | PathError string string string
  | UnmarshalError string

type_synonym byte = char

datatype File = File string

record FileInfo =
  Name :: string
  IsDir :: bool

text \<open>
  The library calls the loader makes, as one record of functions: \<open>ioutil.ReadDir\<close>,
  \<open>os.Open\<close>, \<open>ioutil.ReadAll\<close>, \<open>xml.Unmarshal\<close> and \<open>filepath.Join\<close>.
  The file system is taken to stand still during one call of the loader, so each
  is a function of its argument.
\<close>

record 'f world =
  ReadDir :: "string \<Rightarrow> error + FileInfo list"
  Open :: "string \<Rightarrow> error + File"
  ReadAll :: "File \<Rightarrow> error + byte list"
  Unmarshal :: "byte list \<Rightarrow> error + 'f xmlSuite"
  Join :: "string \<Rightarrow> string \<Rightarrow> string"

text \<open>
  What the loader does to the world, in the order it does it: the calls it makes
  (with the file that \<open>os.Open\<close> returned, \<open>None\<close> for nil), the lines it logs,
  and the \<open>Close\<close> calls (on a nil file \<open>Close\<close> returns an error and does
  nothing else).
\<close>

datatype event =
  CallReadDir string
  | CallOpen string "File option"
  | CallReadAll File
  | CallUnmarshal "byte list"
  | CallClose "File option"
  | Debugf string
  | LogError error

subsection \<open>\<open>filepath.Ext\<close>\<close>

text \<open>
  The library scans the path from its last byte towards the first, stops at a path
  separator, and returns the suffix that starts at the first dot it meets; with no
  dot in the last element the extension is empty.
\<close>

fun ext_scan :: "string \<Rightarrow> string \<Rightarrow> string" where
  "ext_scan [] seen = []"
| "ext_scan (c # cs) seen =
     (if c = CHR ''/'' then []
      else if c = CHR ''.'' then c # seen
      else ext_scan cs (c # seen))"

definition Ext :: "string \<Rightarrow> string" where
  "Ext path = ext_scan (rev path) []"

subsection \<open>\<open>sort.Slice\<close>\<close>

text \<open>
  \<open>sort.Slice\<close> belongs to the Go library. Its contract: the slice is permuted
  so that it is ordered by the comparison \<open>lt\<close> it is given (Go's \<open>less\<close>); the order of elements that \<open>lt\<close> does
  not separate is not promised. The model is the insertion sort the library runs
  on a short slice: element \<open>i\<close> is swapped towards the front while it is
  \<open>lt\<close> its left neighbour. \<open>sink\<close> is that inner loop, on the
  prefix held in reverse (nearest neighbour first). The theorems about the loader
  use the order and the permutation only, never the place of equal elements.
\<close>

fun sink :: "('a \<Rightarrow> 'a \<Rightarrow> bool) \<Rightarrow> 'a \<Rightarrow> 'a list \<Rightarrow> 'a list" where
  "sink lt x [] = [x]"
| "sink lt x (y # ys) = (if lt x y then y # sink lt x ys else x # y # ys)"

fun sort_loop :: "('a \<Rightarrow> 'a \<Rightarrow> bool) \<Rightarrow> 'a list \<Rightarrow> 'a list \<Rightarrow> 'a list" where
  "sort_loop lt front [] = rev front"
| "sort_loop lt front (x # xs) = sort_loop lt (sink lt x front) xs"

definition sort_Slice :: "('a \<Rightarrow> 'a \<Rightarrow> bool) \<Rightarrow> 'a list \<Rightarrow> 'a list" where
  "sort_Slice lt xs = sort_loop lt [] xs"

subsection \<open>\<open>parseXMLReport\<close> and \<open>LoadXMLReport\<close>\<close>

text \<open>
  The state of the loop over the directory's entries: the suites appended so far,
  the receivers of the \<open>defer xmlFile.Close()\<close> statements executed so far (in the
  order they were executed) and the events so far. A \<open>defer\<close> statement
  evaluates its receiver at once and runs the call when the surrounding function,
  \<open>parseXMLReport\<close>, returns.
\<close>

record 'f loop_state =
  xSuites :: "'f xmlSuite list"
  deferred :: "File option list"
  trace :: "event list"

definition loop_body ::
  "'f world \<Rightarrow> string \<Rightarrow> 'f loop_state \<Rightarrow> FileInfo \<Rightarrow> 'f loop_state" where
  "loop_body w reportDir st f =
     (if Ext (FileInfo.Name f) \<noteq> ''.xml'' \<or> IsDir f then
        st\<lparr>trace := trace st @
             [Debugf (''not report file '' @ [CHR 0x27] @ FileInfo.Name f @ [CHR 0x27])]\<rparr>
      else
        (let path = Join w reportDir (FileInfo.Name f) in
         case Open w path of
           Inl err \<Rightarrow>
             st\<lparr>deferred := deferred st @ [None],
                trace := trace st @ [CallOpen path None, LogError err]\<rparr>
         | Inr xmlFile \<Rightarrow>
             (case ReadAll w xmlFile of
                Inl err \<Rightarrow>
                  st\<lparr>deferred := deferred st @ [Some xmlFile],
                     trace := trace st @
                       [CallOpen path (Some xmlFile), CallReadAll xmlFile, LogError err]\<rparr>
              | Inr b \<Rightarrow>
                  (case Unmarshal w b of
                     Inl err \<Rightarrow>
                       st\<lparr>deferred := deferred st @ [Some xmlFile],
                          trace := trace st @
                            [CallOpen path (Some xmlFile), CallReadAll xmlFile,
                             CallUnmarshal b, LogError err]\<rparr>
                   | Inr xSuite \<Rightarrow>
                       st\<lparr>xSuites := xSuites st @ [xSuite],
                          deferred := deferred st @ [Some xmlFile],
                          trace := trace st @
                            [CallOpen path (Some xmlFile), CallReadAll xmlFile,
                             CallUnmarshal b]\<rparr>))))"

fun loop :: "'f world \<Rightarrow> string \<Rightarrow> 'f loop_state \<Rightarrow> FileInfo list \<Rightarrow> 'f loop_state" where
  "loop w reportDir st [] = st"
| "loop w reportDir st (f # files) = loop w reportDir (loop_body w reportDir st f) files"

text \<open>The deferred calls run last in, first out.\<close>

definition run_deferred :: "File option list \<Rightarrow> event list" where
  "run_deferred ds = map CallClose (rev ds)"

definition suite_less :: "(string \<Rightarrow> Time) \<Rightarrow> 'f xmlSuite \<Rightarrow> 'f xmlSuite \<Rightarrow> bool" where
  "suite_less parseTimeStamp a b =
     (let t1 = parseTimeStamp (TimeStamp a);
          t2 = parseTimeStamp (TimeStamp b)
      in Before t1 t2)"

text \<open>
  The result is the pair of Go (\<open>Inl\<close> for a non-nil error, which comes with a
  nil slice) together with the events of the call.
\<close>

definition parseXMLReport ::
  "(string \<Rightarrow> Time) \<Rightarrow> 'f world \<Rightarrow> string \<Rightarrow> (error + 'f xmlSuite list) \<times> event list" where
  "parseXMLReport parseTimeStamp w reportDir =
     (if length reportDir = 0 then
        (Inl (errorString ''report dir could not be empty''), [])
      else
        (case ReadDir w reportDir of
           Inl err \<Rightarrow> (Inl err, [CallReadDir reportDir])
         | Inr files \<Rightarrow>
             (let st = loop w reportDir
                         \<lparr>xSuites = [], deferred = [], trace = [CallReadDir reportDir]\<rparr> files
              in (Inr (sort_Slice (suite_less parseTimeStamp) (xSuites st)),
                  trace st @ run_deferred (deferred st)))))"

definition LoadXMLReport ::
  "(string \<Rightarrow> Time) \<Rightarrow> 'f world \<Rightarrow> string \<Rightarrow> (error + 'f XMLReport) \<times> event list" where
  "LoadXMLReport parseTimeStamp w dirName =
     (case parseXMLReport parseTimeStamp w dirName of
        (Inl err, tr) \<Rightarrow> (Inl err, tr)
      | (Inr report, tr) \<Rightarrow> (Inr \<lparr>xmlSuites = report\<rparr>, tr))"

section \<open>Notions the properties are stated with\<close>

text \<open>
  What one entry of the listing contributes, in the words of the specification:
  an entry that is a regular file with the extension \<open>.xml\<close>, that opens, reads
  and decodes, contributes its suite; any other entry contributes nothing.
\<close>

definition is_report_file :: "FileInfo \<Rightarrow> bool" where
  "is_report_file f = (Ext (FileInfo.Name f) = ''.xml'' \<and> \<not> IsDir f)"

definition decoded_suite :: "'f world \<Rightarrow> string \<Rightarrow> FileInfo \<Rightarrow> 'f xmlSuite option" where
  "decoded_suite w reportDir f =
     (if is_report_file f then
        (case Open w (Join w reportDir (FileInfo.Name f)) of
           Inl err \<Rightarrow> None
         | Inr xmlFile \<Rightarrow>
             (case ReadAll w xmlFile of
                Inl err \<Rightarrow> None
              | Inr b \<Rightarrow>
                  (case Unmarshal w b of
                     Inl err \<Rightarrow> None
                   | Inr xSuite \<Rightarrow> Some xSuite)))
      else None)"

text \<open>
  The files that are open after a sequence of events, given the ones open before
  it: \<open>os.Open\<close> returning a file opens it, \<open>Close\<close> on it releases it.
\<close>

fun open_files :: "File list \<Rightarrow> event list \<Rightarrow> File list" where
  "open_files held [] = held"
| "open_files held (CallOpen path (Some fl) # es) = open_files (fl # held) es"
| "open_files held (CallClose (Some fl) # es) = open_files (remove1 fl held) es"
| "open_files held (e # es) = open_files held es"

text \<open>
  Whether some file is still held at the moment the loader opens the next one.
\<close>

fun held_at_next_open :: "File list \<Rightarrow> event list \<Rightarrow> bool" where
  "held_at_next_open held [] = False"
| "held_at_next_open held (CallOpen path r # es) =
     (if held \<noteq> [] then True
      else held_at_next_open (case r of None \<Rightarrow> held | Some fl \<Rightarrow> fl # held) es)"
| "held_at_next_open held (CallClose (Some fl) # es) =
     held_at_next_open (remove1 fl held) es"
| "held_at_next_open held (e # es) = held_at_next_open held es"

text \<open>The debug lines among the events.\<close>

fun is_Debugf :: "event \<Rightarrow> bool" where
  "is_Debugf (Debugf line) = True"
| "is_Debugf e = False"

text \<open>The files among the receivers of a list of deferred \<open>Close\<close> calls.\<close>

fun receivers :: "File option list \<Rightarrow> File list" where
  "receivers [] = []"
| "receivers (None # ds) = receivers ds"
| "receivers (Some fl # ds) = fl # receivers ds"

section \<open>A directory of reports, for the examples\<close>

text \<open>
  Instances of the two parameters. The stamps are looked up in a table of the two
  that occur below (nanoseconds since the zero time; any other string gives the
  zero time), and a span of seconds is scaled to nanoseconds.
\<close>

definition example_parseTimeStamp :: "string \<Rightarrow> Time" where
  "example_parseTimeStamp ts =
     (if ts = ''2023-01-01T10:00:00'' then 63808164000000000000
      else if ts = ''2023-01-01T10:00:05'' then 63808164005000000000
      else 0)"

definition example_secondsToDuration :: "real \<Rightarrow> Duration" where
  "example_secondsToDuration s = \<lfloor>s * 1000000000\<rfloor>"

definition case_ok :: "real xmlTest" where
  "case_ok = \<lparr>xmlTest.Name = ''ok'', ClassName = ''pkg.SuiteA'', xmlTest.Time = 1.5,
             Failure = None\<rparr>"

definition case_bad :: "real xmlTest" where
  "case_bad = \<lparr>xmlTest.Name = ''bad'', ClassName = ''pkg.SuiteA'', xmlTest.Time = 2,
              Failure = Some \<lparr>xmlFailure.Type = ''AssertionError'',
                              xmlFailure.Message = ''expected 1'',
                              Details = ''at line 7''\<rparr>\<rparr>"

text \<open>
  Suite A starts first and runs for a minute; suite B starts five seconds later,
  runs for a second and a half, and reports no tests but three failures.
\<close>

definition suite_A :: "real xmlSuite" where
  "suite_A = \<lparr>XMLName = [], ID = 1, xmlSuite.Name = ''SuiteA'', PackageName = ''pkg'',
             TimeStamp = ''2023-01-01T10:00:00'', xmlSuite.Time = 60, HostName = ''ci'',
             Tests = 2, Failures = 1, Errors = 0, Properties = (),
             Cases = [case_ok, case_bad], SystemOut = [], SystemErr = []\<rparr>"

definition suite_B :: "real xmlSuite" where
  "suite_B = \<lparr>XMLName = [], ID = 2, xmlSuite.Name = ''SuiteB'', PackageName = ''pkg'',
             TimeStamp = ''2023-01-01T10:00:05'', xmlSuite.Time = 1.5, HostName = ''ci'',
             Tests = 0, Failures = 3, Errors = 1, Properties = (),
             Cases = [], SystemOut = [], SystemErr = []\<rparr>"

definition example_report :: "real XMLReport" where
  "example_report = \<lparr>xmlSuites = [suite_A, suite_B]\<rparr>"

text \<open>
  The directory \<open>reports\<close> lists, in this order: the file of suite B, a text
  file, the file of suite A, a file that is not XML, and a directory whose name
  ends in \<open>.xml\<close>. Every file opens and reads.
\<close>

definition example_files :: "FileInfo list" where
  "example_files =
     [\<lparr>FileInfo.Name = ''b.xml'', IsDir = False\<rparr>,
      \<lparr>FileInfo.Name = ''notes.txt'', IsDir = False\<rparr>,
      \<lparr>FileInfo.Name = ''a.xml'', IsDir = False\<rparr>,
      \<lparr>FileInfo.Name = ''bad.xml'', IsDir = False\<rparr>,
      \<lparr>FileInfo.Name = ''old.xml'', IsDir = True\<rparr>]"

text \<open>The directory \<open>drafts\<close> holds a text file and a file that is not XML.\<close>

definition example_drafts :: "FileInfo list" where
  "example_drafts =
     [\<lparr>FileInfo.Name = ''notes.txt'', IsDir = False\<rparr>,
      \<lparr>FileInfo.Name = ''bad.xml'', IsDir = False\<rparr>]"

text \<open>
  A third listing: a file whose extension is in upper case, the file of suite A,
  and a directory whose name ends in \<open>.xml\<close>.
\<close>

definition example_archive :: "FileInfo list" where
  "example_archive =
     [\<lparr>FileInfo.Name = ''REPORT.XML'', IsDir = False\<rparr>,
      \<lparr>FileInfo.Name = ''a.xml'', IsDir = False\<rparr>,
      \<lparr>FileInfo.Name = ''old.xml'', IsDir = True\<rparr>]"

definition example_world :: "real world" where
  "example_world =
     \<lparr>ReadDir = (\<lambda>d. if d = ''reports'' then Inr example_files
                     else if d = ''drafts'' then Inr example_drafts
                     else Inl (PathError ''open'' d ''no such file or directory'')),
      Open = (\<lambda>p. Inr (File p)),
      ReadAll = (\<lambda>fl. case fl of File p \<Rightarrow>
                  Inr (if p = ''reports/a.xml'' then ''A''
                       else if p = ''reports/b.xml'' then ''B'' else ''<'')),
      Unmarshal = (\<lambda>b. if b = ''A'' then Inr suite_A
                       else if b = ''B'' then Inr suite_B
                       else Inl (UnmarshalError ''unexpected EOF'')),
      Join = (\<lambda>d n. d @ ''/'' @ n)\<rparr>"

section \<open>Lemmas\<close>

subsection \<open>Indexing\<close>

lemma index_in_range: "0 \<le> i \<Longrightarrow> i < int (length xs) \<Longrightarrow> index xs i = Inr (xs ! nat i)"
  by (simp add: index_def)

subsection \<open>The sort\<close>

text \<open>
  For a comparison that compares keys, \<open>sink\<close> keeps an ordered prefix
  ordered (the prefix is held in reverse, so it descends), and the loop ends
  with the whole slice ascending. Nothing is lost or gained on the way.
\<close>

lemma mset_sink: "mset (sink lt x ys) = add_mset x (mset ys)"
  by (induction ys) auto

lemma set_sink: "set (sink lt x ys) = insert x (set ys)"
  by (induction ys) auto

lemma sorted_sink:
  fixes key :: "'a \<Rightarrow> int"
  assumes lt: "\<And>a b. lt a b = (key a < key b)"
    and desc: "sorted_wrt (\<lambda>a b. key b \<le> key a) ys"
  shows "sorted_wrt (\<lambda>a b. key b \<le> key a) (sink lt x ys)"
  using desc
proof (induction ys)
  case Nil
  show ?case by simp
next
  case (Cons y ys)
  show ?case
  proof (cases "lt x y")
    case True
    then have "key x < key y" by (simp add: lt)
    with Cons show ?thesis using True by (auto simp: set_sink)
  next
    case False
    then have "key y \<le> key x" by (simp add: lt)
    with Cons.prems show ?thesis using False by auto
  qed
qed

lemma mset_sort_loop: "mset (sort_loop lt front xs) = mset front + mset xs"
  by (induction xs arbitrary: front) (auto simp: mset_sink)

lemma sorted_sort_loop:
  fixes key :: "'a \<Rightarrow> int"
  assumes lt: "\<And>a b. lt a b = (key a < key b)"
  shows "sorted_wrt (\<lambda>a b. key b \<le> key a) front
         \<Longrightarrow> sorted_wrt (\<lambda>a b. key a \<le> key b) (sort_loop lt front xs)"
proof (induction xs arbitrary: front)
  case Nil
  then show ?case by (simp add: sorted_wrt_rev)
next
  case (Cons x xs)
  from Cons.prems have "sorted_wrt (\<lambda>a b. key b \<le> key a) (sink lt x front)"
    by (rule sorted_sink [OF lt])
  then show ?case using Cons.IH by simp
qed

lemma mset_sort_Slice: "mset (sort_Slice lt xs) = mset xs"
  by (simp add: sort_Slice_def mset_sort_loop)

lemma sorted_sort_Slice:
  fixes key :: "'a \<Rightarrow> int"
  assumes "\<And>a b. lt a b = (key a < key b)"
  shows "sorted_wrt (\<lambda>a b. key a \<le> key b) (sort_Slice lt xs)"
  unfolding sort_Slice_def by (rule sorted_sort_loop [OF assms]) simp

lemma suite_less_key:
  "suite_less parseTimeStamp a b = (parseTimeStamp (TimeStamp a) < parseTimeStamp (TimeStamp b))"
  by (simp add: suite_less_def Before_def)

subsection \<open>The loop over the entries\<close>

text \<open>
  The suites the loop appends are the ones the entries contribute, one entry at
  a time and in the order of the listing.
\<close>

lemma loop_body_xSuites:
  "xSuites (loop_body w d st f) =
     xSuites st @ (case decoded_suite w d f of None \<Rightarrow> [] | Some s \<Rightarrow> [s])"
  by (auto simp: loop_body_def decoded_suite_def is_report_file_def Let_def split: sum.splits)

lemma loop_xSuites:
  "xSuites (loop w d st files) = xSuites st @ List.map_filter (decoded_suite w d) files"
  by (induction files arbitrary: st)
     (auto simp: loop_body_xSuites List.map_filter_simps split: option.splits)

lemma parseXMLReport_listed:
  assumes "reportDir \<noteq> []" and "ReadDir w reportDir = Inr files"
  shows "fst (parseXMLReport parseTimeStamp w reportDir) =
           Inr (sort_Slice (suite_less parseTimeStamp)
                  (List.map_filter (decoded_suite w reportDir) files))"
  using assms by (simp add: parseXMLReport_def Let_def loop_xSuites)

lemma fst_LoadXMLReport:
  "fst (LoadXMLReport parseTimeStamp w d) =
     (case fst (parseXMLReport parseTimeStamp w d) of
        Inl err \<Rightarrow> Inl err | Inr report \<Rightarrow> Inr \<lparr>xmlSuites = report\<rparr>)"
  by (simp add: LoadXMLReport_def split: prod.splits sum.splits)

lemma Load_listed:
  assumes "reportDir \<noteq> []" and "ReadDir w reportDir = Inr files"
  shows "fst (LoadXMLReport parseTimeStamp w reportDir) =
           Inr \<lparr>xmlSuites = sort_Slice (suite_less parseTimeStamp)
                  (List.map_filter (decoded_suite w reportDir) files)\<rparr>"
  by (simp add: fst_LoadXMLReport parseXMLReport_listed [OF assms])

lemma Load_unlisted:
  assumes "ReadDir w reportDir = Inl err"
  shows "isl (fst (LoadXMLReport parseTimeStamp w reportDir))"
  using assms by (simp add: fst_LoadXMLReport parseXMLReport_def)

text \<open>
  The debug lines of the loop are those of the entries it skips, in the order
  of the listing. Leaving the skipped entries out of the listing changes
  neither the suites, nor the deferred calls, nor any event but the debug
  lines. \<open>xml.Unmarshal\<close> is called only on what was read from a regular
  file with the extension \<open>.xml\<close>.
\<close>

lemma loop_body_debug_lines:
  "filter is_Debugf (trace (loop_body w d st f)) =
     filter is_Debugf (trace st) @
       (if Ext (FileInfo.Name f) \<noteq> ''.xml'' \<or> IsDir f
        then [Debugf (''not report file '' @ [CHR 0x27] @ FileInfo.Name f @ [CHR 0x27])]
        else [])"
  by (auto simp: loop_body_def Let_def split: sum.splits)

lemma loop_debug_lines:
  "filter is_Debugf (trace (loop w d st files)) =
     filter is_Debugf (trace st) @
       map (\<lambda>f. Debugf (''not report file '' @ [CHR 0x27] @ FileInfo.Name f @ [CHR 0x27]))
         (filter (\<lambda>f. Ext (FileInfo.Name f) \<noteq> ''.xml'' \<or> IsDir f) files)"
  by (induction files arbitrary: st) (simp_all add: loop_body_debug_lines)

lemma loop_body_ReadDir_update:
  "loop_body (w\<lparr>ReadDir := g\<rparr>) d st f = loop_body w d st f"
  by (auto simp: loop_body_def Let_def split: sum.splits)

lemma loop_ReadDir_update:
  "loop (w\<lparr>ReadDir := g\<rparr>) d st files = loop w d st files"
  by (induction files arbitrary: st) (simp_all add: loop_body_ReadDir_update)

lemma loop_body_skip:
  assumes "\<not> is_report_file f"
  shows "loop_body w d st f =
           st\<lparr>trace := trace st @
                [Debugf (''not report file '' @ [CHR 0x27] @ FileInfo.Name f @ [CHR 0x27])]\<rparr>"
  using assms by (auto simp: loop_body_def is_report_file_def)

lemma loop_body_report_file:
  assumes "is_report_file f"
    and "xSuites st = xSuites st'" and "deferred st = deferred st'"
    and "filter (\<lambda>e. \<not> is_Debugf e) (trace st) = trace st'"
  shows "xSuites (loop_body w d st f) = xSuites (loop_body w d st' f)
       \<and> deferred (loop_body w d st f) = deferred (loop_body w d st' f)
       \<and> filter (\<lambda>e. \<not> is_Debugf e) (trace (loop_body w d st f)) = trace (loop_body w d st' f)"
  using assms by (auto simp: loop_body_def is_report_file_def Let_def split: sum.splits)

lemma loop_without_skipped:
  assumes "xSuites st = xSuites st'" and "deferred st = deferred st'"
    and "filter (\<lambda>e. \<not> is_Debugf e) (trace st) = trace st'"
  shows "xSuites (loop w d st files) = xSuites (loop w d st' (filter is_report_file files))
       \<and> deferred (loop w d st files) = deferred (loop w d st' (filter is_report_file files))
       \<and> filter (\<lambda>e. \<not> is_Debugf e) (trace (loop w d st files)) =
           trace (loop w d st' (filter is_report_file files))"
  using assms
proof (induction files arbitrary: st st')
  case Nil
  then show ?case by simp
next
  case (Cons f files)
  show ?case
  proof (cases "is_report_file f")
    case True
    from loop_body_report_file [OF True Cons.prems, of w d]
    have "xSuites (loop w d (loop_body w d st f) files) =
            xSuites (loop w d (loop_body w d st' f) (filter is_report_file files))
        \<and> deferred (loop w d (loop_body w d st f) files) =
            deferred (loop w d (loop_body w d st' f) (filter is_report_file files))
        \<and> filter (\<lambda>e. \<not> is_Debugf e) (trace (loop w d (loop_body w d st f) files)) =
            trace (loop w d (loop_body w d st' f) (filter is_report_file files))"
      by (intro Cons.IH) simp_all
    with True show ?thesis by simp
  next
    case False
    have "xSuites (loop w d (loop_body w d st f) files) =
            xSuites (loop w d st' (filter is_report_file files))
        \<and> deferred (loop w d (loop_body w d st f) files) =
            deferred (loop w d st' (filter is_report_file files))
        \<and> filter (\<lambda>e. \<not> is_Debugf e) (trace (loop w d (loop_body w d st f) files)) =
            trace (loop w d st' (filter is_report_file files))"
      using Cons.prems by (intro Cons.IH) (simp_all add: loop_body_skip [OF False])
    with False show ?thesis by simp
  qed
qed

lemma loop_body_unmarshal:
  assumes "CallUnmarshal b \<in> set (trace (loop_body w d st f))"
  shows "CallUnmarshal b \<in> set (trace st)
       \<or> (Ext (FileInfo.Name f) = ''.xml'' \<and> \<not> IsDir f
          \<and> (\<exists>xmlFile. Open w (Join w d (FileInfo.Name f)) = Inr xmlFile
                \<and> ReadAll w xmlFile = Inr b))"
  using assms by (auto simp: loop_body_def Let_def split: sum.splits if_splits)

lemma loop_unmarshal:
  assumes "CallUnmarshal b \<in> set (trace (loop w d st files))"
  shows "CallUnmarshal b \<in> set (trace st)
       \<or> (\<exists>f \<in> set files. Ext (FileInfo.Name f) = ''.xml'' \<and> \<not> IsDir f
          \<and> (\<exists>xmlFile. Open w (Join w d (FileInfo.Name f)) = Inr xmlFile
                \<and> ReadAll w xmlFile = Inr b))"
  using assms
proof (induction files arbitrary: st)
  case Nil
  then show ?case by simp
next
  case (Cons f files)
  from Cons.prems have "CallUnmarshal b \<in> set (trace (loop w d (loop_body w d st f) files))"
    by simp
  from Cons.IH [OF this] show ?case
    using loop_body_unmarshal [of b w d st f] by auto
qed

lemma snd_LoadXMLReport:
  "snd (LoadXMLReport parseTimeStamp w d) = snd (parseXMLReport parseTimeStamp w d)"
  by (simp add: LoadXMLReport_def split: prod.splits sum.splits)

lemma parseXMLReport_listed_trace:
  assumes "reportDir \<noteq> []" and "ReadDir w reportDir = Inr files"
  shows "snd (parseXMLReport parseTimeStamp w reportDir) =
           trace (loop w reportDir
                    \<lparr>xSuites = [], deferred = [], trace = [CallReadDir reportDir]\<rparr> files)
           @ run_deferred (deferred (loop w reportDir
                    \<lparr>xSuites = [], deferred = [], trace = [CallReadDir reportDir]\<rparr> files))"
  using assms by (simp add: parseXMLReport_def Let_def)

lemma parseXMLReport_listed_suites:
  assumes "reportDir \<noteq> []" and "ReadDir w reportDir = Inr files"
  shows "fst (parseXMLReport parseTimeStamp w reportDir) =
           Inr (sort_Slice (suite_less parseTimeStamp)
                  (xSuites (loop w reportDir
                    \<lparr>xSuites = [], deferred = [], trace = [CallReadDir reportDir]\<rparr> files)))"
  using assms by (simp add: parseXMLReport_def Let_def)

lemma is_Debugf_run_deferred:
  "filter is_Debugf (run_deferred ds) = []"
  "filter (\<lambda>e. \<not> is_Debugf e) (run_deferred ds) = run_deferred ds"
  by (induction ds) (simp_all add: run_deferred_def)

subsection \<open>The deferred \<open>Close\<close> calls\<close>

text \<open>
  While the loop runs no file is closed: the files open after it are the
  receivers of the deferred calls. The deferred calls then close every one of
  them, so no file is open once \<open>parseXMLReport\<close> has returned.
\<close>

lemma open_files_append:
  "open_files held (es @ es') = open_files (open_files held es) es'"
  by (induction held es rule: open_files.induct) simp_all

lemma receivers_append: "receivers (ds @ ds') = receivers ds @ receivers ds'"
  by (induction ds rule: receivers.induct) simp_all

lemma receivers_rev: "receivers (rev ds) = rev (receivers ds)"
  by (induction ds rule: receivers.induct) (simp_all add: receivers_append)

lemma loop_body_open_files:
  "open_files [] (trace st) = rev (receivers (deferred st))
   \<Longrightarrow> open_files [] (trace (loop_body w d st f)) =
         rev (receivers (deferred (loop_body w d st f)))"
  by (auto simp: loop_body_def Let_def open_files_append receivers_append split: sum.splits)

lemma loop_open_files:
  "open_files [] (trace st) = rev (receivers (deferred st))
   \<Longrightarrow> open_files [] (trace (loop w d st files)) =
         rev (receivers (deferred (loop w d st files)))"
  by (induction files arbitrary: st) (simp_all add: loop_body_open_files)

lemma close_all: "open_files (receivers cs @ others) (map CallClose cs) = others"
  by (induction cs rule: receivers.induct) simp_all

lemma loop_body_no_close:
  "CallClose r \<notin> set (trace st) \<Longrightarrow> CallClose r \<notin> set (trace (loop_body w d st f))"
  by (auto simp: loop_body_def Let_def split: sum.splits)

lemma loop_no_close:
  "CallClose r \<notin> set (trace st) \<Longrightarrow> CallClose r \<notin> set (trace (loop w d st files))"
  by (induction files arbitrary: st) (simp_all add: loop_body_no_close)

lemma files_released_when_parse_returns:
  "open_files [] (snd (parseXMLReport parseTimeStamp w reportDir)) = []"
proof (cases "reportDir \<noteq> [] \<and> \<not> isl (ReadDir w reportDir)")
  case False
  then show ?thesis
    by (auto simp: parseXMLReport_def split: sum.splits)
next
  case True
  then obtain files where listed: "ReadDir w reportDir = Inr files"
    by (cases "ReadDir w reportDir") auto
  let ?st = "loop w reportDir
      \<lparr>xSuites = [], deferred = [], trace = [CallReadDir reportDir]\<rparr> files"
  have "open_files [] (trace ?st) = rev (receivers (deferred ?st))"
    by (rule loop_open_files) simp
  then have "open_files [] (trace ?st @ run_deferred (deferred ?st)) = []"
    using close_all [of "rev (deferred ?st)" "[]"]
    by (simp add: open_files_append run_deferred_def receivers_rev)
  with True listed show ?thesis
    by (simp add: parseXMLReport_def Let_def)
qed

lemma no_close_before_last_entry:
  assumes "reportDir \<noteq> []" and "ReadDir w reportDir = Inr files"
    and "st = loop w reportDir
      \<lparr>xSuites = [], deferred = [], trace = [CallReadDir reportDir]\<rparr> files"
  shows "snd (parseXMLReport parseTimeStamp w reportDir) =
           trace st @ map CallClose (rev (deferred st))"
    and "CallClose r \<notin> set (trace st)"
proof -
  show "snd (parseXMLReport parseTimeStamp w reportDir) =
      trace st @ map CallClose (rev (deferred st))"
    using assms by (simp add: parseXMLReport_def Let_def run_deferred_def)
  show "CallClose r \<notin> set (trace st)"
    unfolding assms(3) by (rule loop_no_close) simp
qed

subsection \<open>The example directory, evaluated\<close>

lemma Ext_examples:
  "Ext ''b.xml'' = ''.xml''" "Ext ''a.xml'' = ''.xml''" "Ext ''bad.xml'' = ''.xml''"
  "Ext ''old.xml'' = ''.xml''" "Ext ''notes.txt'' = ''.txt''"
  by (simp_all add: Ext_def)

lemma Ext_behaviour: "Ext ''A.XML'' = ''.XML''" "Ext ''archive.tar.xml'' = ''.xml''" "Ext ''xml'' = []" "Ext ''a.xml.bak'' = ''.bak''" "Ext ''.xml'' = ''.xml''"
  by (simp_all add: Ext_def)

lemma Ext_upper_case: "Ext ''REPORT.XML'' = ''.XML''"
  by (simp add: Ext_def)

lemma example_loop:
  "loop example_world ''reports''
     \<lparr>xSuites = [], deferred = [], trace = [CallReadDir ''reports'']\<rparr> example_files =
   \<lparr>xSuites = [suite_B, suite_A],
    deferred = [Some (File ''reports/b.xml''), Some (File ''reports/a.xml''),
                Some (File ''reports/bad.xml'')],
    trace = [CallReadDir ''reports'',
      CallOpen ''reports/b.xml'' (Some (File ''reports/b.xml'')),
      CallReadAll (File ''reports/b.xml''), CallUnmarshal ''B'',
      Debugf (''not report file '' @ [CHR 0x27] @ ''notes.txt'' @ [CHR 0x27]),
      CallOpen ''reports/a.xml'' (Some (File ''reports/a.xml'')),
      CallReadAll (File ''reports/a.xml''), CallUnmarshal ''A'',
      CallOpen ''reports/bad.xml'' (Some (File ''reports/bad.xml'')),
      CallReadAll (File ''reports/bad.xml''), CallUnmarshal ''<'',
      LogError (UnmarshalError ''unexpected EOF''),
      Debugf (''not report file '' @ [CHR 0x27] @ ''old.xml'' @ [CHR 0x27])]\<rparr>"
  by (simp add: example_files_def loop_body_def Ext_examples example_world_def Let_def)

lemma example_sort:
  "sort_Slice (suite_less example_parseTimeStamp) [suite_B, suite_A] = [suite_A, suite_B]"
  by (simp add: sort_Slice_def suite_less_def Before_def example_parseTimeStamp_def
      suite_A_def suite_B_def)

lemma example_load:
  "LoadXMLReport example_parseTimeStamp example_world ''reports'' =
     (Inr example_report,
      [CallReadDir ''reports'',
       CallOpen ''reports/b.xml'' (Some (File ''reports/b.xml'')),
       CallReadAll (File ''reports/b.xml''), CallUnmarshal ''B'',
       Debugf (''not report file '' @ [CHR 0x27] @ ''notes.txt'' @ [CHR 0x27]),
       CallOpen ''reports/a.xml'' (Some (File ''reports/a.xml'')),
       CallReadAll (File ''reports/a.xml''), CallUnmarshal ''A'',
       CallOpen ''reports/bad.xml'' (Some (File ''reports/bad.xml'')),
       CallReadAll (File ''reports/bad.xml''), CallUnmarshal ''<'',
       LogError (UnmarshalError ''unexpected EOF''),
       Debugf (''not report file '' @ [CHR 0x27] @ ''old.xml'' @ [CHR 0x27]),
       CallClose (Some (File ''reports/bad.xml'')),
       CallClose (Some (File ''reports/a.xml'')),
       CallClose (Some (File ''reports/b.xml''))])"
proof -
  have listed: "ReadDir example_world ''reports'' = Inr example_files"
    by (simp add: example_world_def)
  show ?thesis
    by (simp add: LoadXMLReport_def parseXMLReport_def listed Let_def example_loop
        example_sort run_deferred_def example_report_def)
qed

lemma example_load_fst:
  "fst (LoadXMLReport example_parseTimeStamp example_world ''reports'') = Inr example_report"
  by (simp add: example_load)

lemma example_decoded:
  "List.map_filter (decoded_suite example_world ''reports'') example_files = [suite_B, suite_A]"
  by (simp add: example_files_def List.map_filter_simps decoded_suite_def is_report_file_def
      Ext_examples example_world_def)

section \<open>The properties\<close>

text \<open>
  Claim C1. After \<open>LoadXMLReport\<close> has returned a report, the suites are in
  ascending order of their parsed start times: for adjacent indices \<open>i\<close> and
  \<open>i + 1\<close> the start of suite \<open>i + 1\<close> is not before the start of suite
  \<open>i\<close>. This holds for every listing the directory may present, since the
  world is arbitrary.
\<close>

theorem Load_sorted_by_start:
  assumes "fst (LoadXMLReport parseTimeStamp w dirName) = Inr report"
  shows "\<forall>i. Suc i < length (xmlSuites report) \<longrightarrow>
           \<not> Before (parseTimeStamp (TimeStamp (xmlSuites report ! Suc i)))
                    (parseTimeStamp (TimeStamp (xmlSuites report ! i)))"
proof -
  let ?key = "\<lambda>s::'a xmlSuite. parseTimeStamp (TimeStamp s)"
  from assms obtain files where nonempty: "dirName \<noteq> []"
    and listed: "ReadDir w dirName = Inr files"
    by (auto simp: fst_LoadXMLReport parseXMLReport_def split: sum.splits if_splits)
  from assms have suites: "xmlSuites report =
      sort_Slice (suite_less parseTimeStamp) (List.map_filter (decoded_suite w dirName) files)"
    by (auto simp: fst_LoadXMLReport parseXMLReport_listed [OF nonempty listed])
  have "sorted_wrt (\<lambda>a b. ?key a \<le> ?key b) (xmlSuites report)"
    unfolding suites by (rule sorted_sort_Slice) (rule suite_less_key)
  then have ordered: "\<And>i j. i < j \<Longrightarrow> j < length (xmlSuites report)
      \<Longrightarrow> ?key (xmlSuites report ! i) \<le> ?key (xmlSuites report ! j)"
    by (simp add: sorted_wrt_iff_nth_less)
  show ?thesis
  proof (intro allI impI)
    fix i
    assume "Suc i < length (xmlSuites report)"
    then have "?key (xmlSuites report ! i) \<le> ?key (xmlSuites report ! Suc i)"
      by (intro ordered) simp_all
    then show "\<not> Before (?key (xmlSuites report ! Suc i)) (?key (xmlSuites report ! i))"
      by (simp add: Before_def)
  qed
qed

theorem Load_sorted_by_start_witness:
  "fst (LoadXMLReport example_parseTimeStamp example_world ''reports'') = Inr example_report
   \<and> xmlSuites example_report = [suite_A, suite_B]
   \<and> Suc 0 < length (xmlSuites example_report)
   \<and> \<not> Before (example_parseTimeStamp (TimeStamp (xmlSuites example_report ! Suc 0)))
               (example_parseTimeStamp (TimeStamp (xmlSuites example_report ! 0)))"
  using Load_sorted_by_start [OF example_load_fst] example_load_fst
  by (simp add: example_report_def)

text \<open>
  Claim C2. For a suite index in range, \<open>SuiteResult\<close> returns the suite's
  parsed start plus its duration as the end time, and the status SKIPPED when the
  test count is zero (whatever the failure and error counters say), otherwise
  FAILED when a failure or an error is counted, otherwise PASSED.
\<close>

theorem SuiteResult_end_and_status:
  assumes "0 \<le> i" and "i < SuitesCount report"
  shows "SuiteResult parseTimeStamp secondsToDuration report i =
           Inr \<lparr>EndTime = Add (parseTimeStamp (TimeStamp (xmlSuites report ! nat i)))
                               (secondsToDuration (xmlSuite.Time (xmlSuites report ! nat i))),
                Status = (if Tests (xmlSuites report ! nat i) = 0 then ExecutionStatusSkipped
                          else if Failures (xmlSuites report ! nat i) > 0
                                  \<or> Errors (xmlSuites report ! nat i) > 0
                               then ExecutionStatusFailed
                          else ExecutionStatusPassed)\<rparr>"
  using assms by (simp add: SuiteResult_def SuitesCount_def index_in_range Let_def)

theorem SuiteResult_end_and_status_witness:
  "(0::int) \<le> 1 \<and> 1 < SuitesCount example_report
   \<and> Tests (xmlSuites example_report ! nat 1) = 0
   \<and> Failures (xmlSuites example_report ! nat 1) = 3
   \<and> SuiteResult example_parseTimeStamp example_secondsToDuration example_report 1 =
       Inr \<lparr>EndTime = 63808164006500000000, Status = ExecutionStatusSkipped\<rparr>"
proof -
  have range: "(0::int) \<le> 1" "1 < SuitesCount example_report"
    by (simp_all add: SuitesCount_def example_report_def)
  show ?thesis
    using SuiteResult_end_and_status [OF range, of example_parseTimeStamp example_secondsToDuration]
      range
    by (simp add: example_report_def suite_B_def example_parseTimeStamp_def
        example_secondsToDuration_def Add_def)
qed

text \<open>
  Claim C3. For a suite index and a case index in range, \<open>TestCase\<close> returns a
  step item that starts at the parsed start of the owning suite, and
  \<open>TestCaseResult\<close> returns that start plus the duration of the case as the end
  time, with status FAILED when the case carries a failure and PASSED otherwise;
  the status of a case is never SKIPPED.
\<close>

theorem TestCase_times_and_status:
  assumes "0 \<le> i" and "i < SuitesCount report"
    and "0 \<le> j" and "j < int (length (Cases (xmlSuites report ! nat i)))"
  shows "TestCase parseTimeStamp report i j =
           Inr \<lparr>TestItem.Type = TestItemTypeStep,
                StartTime = parseTimeStamp (TimeStamp (xmlSuites report ! nat i)),
                TestItem.Name = xmlTest.Name (Cases (xmlSuites report ! nat i) ! nat j),
                Description = []\<rparr>
         \<and> TestCaseResult parseTimeStamp secondsToDuration report i j =
           Inr \<lparr>EndTime = Add (parseTimeStamp (TimeStamp (xmlSuites report ! nat i)))
                    (secondsToDuration (xmlTest.Time (Cases (xmlSuites report ! nat i) ! nat j))),
                Status = (if Failure (Cases (xmlSuites report ! nat i) ! nat j) = None
                          then ExecutionStatusPassed else ExecutionStatusFailed)\<rparr>
         \<and> (\<exists>res. TestCaseResult parseTimeStamp secondsToDuration report i j = Inr res
                \<and> Status res \<noteq> ExecutionStatusSkipped)"
  using assms
  by (simp add: TestCase_def TestCaseResult_def SuitesCount_def index_in_range Let_def)

theorem TestCase_times_and_status_witness:
  "(0::int) \<le> 0 \<and> 0 < SuitesCount example_report
   \<and> (0::int) \<le> 1 \<and> TesCaseCount example_report 0 = Inr 2
   \<and> TestCase example_parseTimeStamp example_report 0 1 =
       Inr \<lparr>TestItem.Type = TestItemTypeStep, StartTime = 63808164000000000000,
            TestItem.Name = ''bad'', Description = []\<rparr>
   \<and> TestCaseResult example_parseTimeStamp example_secondsToDuration example_report 0 1 =
       Inr \<lparr>EndTime = 63808164002000000000, Status = ExecutionStatusFailed\<rparr>
   \<and> TestCaseResult example_parseTimeStamp example_secondsToDuration example_report 0 0 =
       Inr \<lparr>EndTime = 63808164001500000000, Status = ExecutionStatusPassed\<rparr>"
proof -
  have range: "(0::int) \<le> 0" "0 < SuitesCount example_report"
    by (simp_all add: SuitesCount_def example_report_def)
  have c0: "(0::int) \<le> 0" "0 < int (length (Cases (xmlSuites example_report ! nat 0)))"
    and c1: "(0::int) \<le> 1" "1 < int (length (Cases (xmlSuites example_report ! nat 0)))"
    by (simp_all add: example_report_def suite_A_def)
  have count: "TesCaseCount example_report 0 = Inr 2"
    by (simp add: TesCaseCount_def index_def example_report_def suite_A_def)
  show ?thesis
    using TestCase_times_and_status [OF range c1, of example_parseTimeStamp example_secondsToDuration]
      TestCase_times_and_status [OF range c0, of example_parseTimeStamp example_secondsToDuration]
      range count
    by (simp add: example_report_def suite_A_def case_ok_def case_bad_def
        example_parseTimeStamp_def example_secondsToDuration_def Add_def)
qed

text \<open>
  Claim C4. For a report with at least one suite, \<open>LaunchEndTime\<close> is the parsed
  start of the last suite plus the duration of that suite. It is not the latest
  end over all suites: in the example the first suite ends later than the value
  returned.
\<close>

theorem LaunchEndTime_is_last_suite_end:
  assumes "0 < SuitesCount report"
  shows "LaunchEndTime parseTimeStamp secondsToDuration report =
           Inr (Add (parseTimeStamp (TimeStamp (last (xmlSuites report))))
                    (secondsToDuration (xmlSuite.Time (last (xmlSuites report)))))"
proof -
  from assms have ne: "xmlSuites report \<noteq> []"
    by (auto simp: SuitesCount_def)
  then have "index (xmlSuites report) (int (length (xmlSuites report)) - 1) =
      Inr (last (xmlSuites report))"
    by (cases "xmlSuites report" rule: rev_cases) (auto simp: index_def nat_diff_distrib)
  then show ?thesis
    by (simp add: LaunchEndTime_def Let_def)
qed

theorem LaunchEndTime_is_last_suite_end_witness:
  "fst (LoadXMLReport example_parseTimeStamp example_world ''reports'') = Inr example_report
   \<and> 0 < SuitesCount example_report
   \<and> LaunchEndTime example_parseTimeStamp example_secondsToDuration example_report =
       Inr 63808164006500000000
   \<and> SuiteResult example_parseTimeStamp example_secondsToDuration example_report 0 =
       Inr \<lparr>EndTime = 63808164060000000000, Status = ExecutionStatusFailed\<rparr>"
proof -
  have some: "0 < SuitesCount example_report"
    by (simp add: SuitesCount_def example_report_def)
  have first: "SuiteResult example_parseTimeStamp example_secondsToDuration example_report 0 =
       Inr \<lparr>EndTime = 63808164060000000000, Status = ExecutionStatusFailed\<rparr>"
    by (simp add: SuiteResult_def index_def example_report_def suite_A_def
        example_parseTimeStamp_def example_secondsToDuration_def Add_def)
  show ?thesis
    using LaunchEndTime_is_last_suite_end [OF some, of example_parseTimeStamp example_secondsToDuration]
      some first example_load_fst
    by (simp add: example_report_def suite_B_def example_parseTimeStamp_def
        example_secondsToDuration_def Add_def)
qed

text \<open>
  Claim C5. With the empty string for the directory, \<open>LoadXMLReport\<close> returns
  the error made by \<open>errors.New\<close> and no report, before any call to the file
  system; the error is not one of the file system's.
\<close>

theorem Load_empty_dir_name:
  "LoadXMLReport parseTimeStamp w [] =
     (Inl (errorString ''report dir could not be empty''), [])
   \<and> parseXMLReport parseTimeStamp w [] =
     (Inl (errorString ''report dir could not be empty''), [])
   \<and> fst (LoadXMLReport parseTimeStamp w []) \<noteq> Inl (PathError operation path cause)"
  by (simp add: LoadXMLReport_def parseXMLReport_def)

text \<open>
  Claim C6. \<open>LoadXMLReport\<close> returns an error exactly when the directory cannot
  be listed. When it can be listed the call succeeds, and the report holds
  exactly the suites of the entries that open, read and decode; an entry that
  fails at one of these steps is left out. The empty path is taken not to be
  listable, as on every file system; for it the code returns its own error
  without asking.
\<close>

theorem Load_fails_only_on_listing:
  assumes "reportDir = [] \<longrightarrow> isl (ReadDir w reportDir)"
  shows "(isl (fst (LoadXMLReport parseTimeStamp w reportDir)) \<longleftrightarrow> isl (ReadDir w reportDir))
         \<and> (\<forall>files. ReadDir w reportDir = Inr files \<longrightarrow>
               (\<exists>report. fst (LoadXMLReport parseTimeStamp w reportDir) = Inr report
                  \<and> mset (xmlSuites report) =
                      mset (List.map_filter (decoded_suite w reportDir) files)))"
proof (cases "ReadDir w reportDir")
  case (Inl err)
  then show ?thesis
    by (simp add: Load_unlisted)
next
  case (Inr files)
  with assms have "reportDir \<noteq> []" by auto
  then show ?thesis
    using Inr by (simp add: Load_listed mset_sort_Slice)
qed

theorem Load_fails_only_on_listing_witness:
  "ReadDir example_world ''reports'' = Inr example_files
   \<and> \<not> isl (fst (LoadXMLReport example_parseTimeStamp example_world ''reports''))
   \<and> decoded_suite example_world ''reports'' \<lparr>FileInfo.Name = ''bad.xml'', IsDir = False\<rparr> = None
   \<and> (\<exists>report. fst (LoadXMLReport example_parseTimeStamp example_world ''reports'') = Inr report
         \<and> mset (xmlSuites report) = {#suite_A, suite_B#})
   \<and> isl (ReadDir example_world ''missing'')
   \<and> isl (fst (LoadXMLReport example_parseTimeStamp example_world ''missing''))"
proof -
  have listed: "ReadDir example_world ''reports'' = Inr example_files"
    and unlisted: "isl (ReadDir example_world ''missing'')"
    by (simp_all add: example_world_def)
  have bad: "decoded_suite example_world ''reports'' \<lparr>FileInfo.Name = ''bad.xml'', IsDir = False\<rparr> = None"
    by (simp add: decoded_suite_def is_report_file_def Ext_examples example_world_def)
  have h1: "''reports'' = [] \<longrightarrow> isl (ReadDir example_world ''reports'')"
    and h2: "''missing'' = [] \<longrightarrow> isl (ReadDir example_world ''missing'')"
    by simp_all
  show ?thesis
    using Load_fails_only_on_listing [OF h1, of example_parseTimeStamp]
      Load_fails_only_on_listing [OF h2, of example_parseTimeStamp]
      listed unlisted bad
    by (auto simp: example_decoded add_mset_commute)
qed

text \<open>
  Claim C7. On a directory that is listed, \<open>LoadXMLReport\<close> logs one debug
  line for every entry that is a directory or whose name does not have the
  extension \<open>.xml\<close> (compared byte for byte), in the order of the listing, and
  no other debug line. Such an entry contributes nothing else: the result and
  every other event are those of the same call on the listing without these
  entries, so no suite, no error line and no call to the file system comes from
  them. Every call of \<open>xml.Unmarshal\<close> decodes what was read from a regular file
  of the listing with the extension \<open>.xml\<close>.
\<close>

theorem Load_decodes_only_xml_files:
  assumes "reportDir \<noteq> []" and "ReadDir w reportDir = Inr files"
  shows "filter is_Debugf (snd (LoadXMLReport parseTimeStamp w reportDir)) =
           map (\<lambda>f. Debugf (''not report file '' @ [CHR 0x27] @ FileInfo.Name f @ [CHR 0x27]))
             (filter (\<lambda>f. Ext (FileInfo.Name f) \<noteq> ''.xml'' \<or> IsDir f) files)
       \<and> fst (LoadXMLReport parseTimeStamp w reportDir) =
           fst (LoadXMLReport parseTimeStamp
                 (w\<lparr>ReadDir := (ReadDir w)(reportDir :=
                       Inr (filter (\<lambda>f. Ext (FileInfo.Name f) = ''.xml'' \<and> \<not> IsDir f) files))\<rparr>)
                 reportDir)
       \<and> filter (\<lambda>e. \<not> is_Debugf e) (snd (LoadXMLReport parseTimeStamp w reportDir)) =
           snd (LoadXMLReport parseTimeStamp
                 (w\<lparr>ReadDir := (ReadDir w)(reportDir :=
                       Inr (filter (\<lambda>f. Ext (FileInfo.Name f) = ''.xml'' \<and> \<not> IsDir f) files))\<rparr>)
                 reportDir)
       \<and> (\<forall>b. CallUnmarshal b \<in> set (snd (LoadXMLReport parseTimeStamp w reportDir)) \<longrightarrow>
             (\<exists>f \<in> set files. Ext (FileInfo.Name f) = ''.xml'' \<and> \<not> IsDir f
                \<and> (\<exists>xmlFile. Open w (Join w reportDir (FileInfo.Name f)) = Inr xmlFile
                      \<and> ReadAll w xmlFile = Inr b)))"
proof -
  let ?st0 = "\<lparr>xSuites = [], deferred = [], trace = [CallReadDir reportDir]\<rparr> :: 'a loop_state"
  let ?kept = "filter (\<lambda>f. Ext (FileInfo.Name f) = ''.xml'' \<and> \<not> IsDir f) files"
  let ?w' = "w\<lparr>ReadDir := (ReadDir w)(reportDir := Inr ?kept)\<rparr>"
  let ?L = "loop w reportDir ?st0 files"
  let ?L' = "loop w reportDir ?st0 ?kept"
  have kept: "?kept = filter is_report_file files"
    by (rule filter_cong) (simp_all add: is_report_file_def)
  have listed': "ReadDir ?w' reportDir = Inr ?kept"
    by simp
  have full_trace: "snd (LoadXMLReport parseTimeStamp w reportDir) =
      trace ?L @ run_deferred (deferred ?L)"
    by (simp add: snd_LoadXMLReport parseXMLReport_listed_trace [OF assms])
  have full_suites: "fst (parseXMLReport parseTimeStamp w reportDir) =
      Inr (sort_Slice (suite_less parseTimeStamp) (xSuites ?L))"
    by (rule parseXMLReport_listed_suites [OF assms])
  have kept_trace: "snd (LoadXMLReport parseTimeStamp ?w' reportDir) =
      trace ?L' @ run_deferred (deferred ?L')"
    by (simp only: snd_LoadXMLReport parseXMLReport_listed_trace [OF assms(1) listed']
        loop_ReadDir_update)
  have kept_suites: "fst (parseXMLReport parseTimeStamp ?w' reportDir) =
      Inr (sort_Slice (suite_less parseTimeStamp) (xSuites ?L'))"
    by (simp only: parseXMLReport_listed_suites [OF assms(1) listed'] loop_ReadDir_update)
  have same: "xSuites ?L = xSuites ?L' \<and> deferred ?L = deferred ?L'
      \<and> filter (\<lambda>e. \<not> is_Debugf e) (trace ?L) = trace ?L'"
    unfolding kept by (rule loop_without_skipped) simp_all
  have debug: "filter is_Debugf (snd (LoadXMLReport parseTimeStamp w reportDir)) =
      map (\<lambda>f. Debugf (''not report file '' @ [CHR 0x27] @ FileInfo.Name f @ [CHR 0x27]))
        (filter (\<lambda>f. Ext (FileInfo.Name f) \<noteq> ''.xml'' \<or> IsDir f) files)"
    by (simp add: full_trace loop_debug_lines is_Debugf_run_deferred)
  have result: "fst (LoadXMLReport parseTimeStamp w reportDir) =
      fst (LoadXMLReport parseTimeStamp ?w' reportDir)"
    using same by (simp only: fst_LoadXMLReport full_suites kept_suites)
  have others: "filter (\<lambda>e. \<not> is_Debugf e) (snd (LoadXMLReport parseTimeStamp w reportDir)) =
      snd (LoadXMLReport parseTimeStamp ?w' reportDir)"
    using same by (simp add: full_trace kept_trace is_Debugf_run_deferred)
  have decoded: "\<forall>b. CallUnmarshal b \<in> set (snd (LoadXMLReport parseTimeStamp w reportDir)) \<longrightarrow>
      (\<exists>f \<in> set files. Ext (FileInfo.Name f) = ''.xml'' \<and> \<not> IsDir f
         \<and> (\<exists>xmlFile. Open w (Join w reportDir (FileInfo.Name f)) = Inr xmlFile
               \<and> ReadAll w xmlFile = Inr b))"
  proof (intro allI impI)
    fix b
    assume "CallUnmarshal b \<in> set (snd (LoadXMLReport parseTimeStamp w reportDir))"
    then have "CallUnmarshal b \<in> set (trace ?L)"
      by (auto simp: full_trace run_deferred_def)
    from loop_unmarshal [OF this]
    show "\<exists>f \<in> set files. Ext (FileInfo.Name f) = ''.xml'' \<and> \<not> IsDir f
         \<and> (\<exists>xmlFile. Open w (Join w reportDir (FileInfo.Name f)) = Inr xmlFile
               \<and> ReadAll w xmlFile = Inr b)"
      by simp
  qed
  from debug result others decoded show ?thesis
    by (intro conjI)
qed

theorem Load_decodes_only_xml_files_witness:
  "ReadDir (example_world\<lparr>ReadDir := \<lambda>d. Inr example_archive\<rparr>) ''reports'' = Inr example_archive
   \<and> filter is_Debugf (snd (LoadXMLReport example_parseTimeStamp
        (example_world\<lparr>ReadDir := \<lambda>d. Inr example_archive\<rparr>) ''reports'')) =
       [Debugf (''not report file '' @ [CHR 0x27] @ ''REPORT.XML'' @ [CHR 0x27]),
        Debugf (''not report file '' @ [CHR 0x27] @ ''old.xml'' @ [CHR 0x27])]
   \<and> Ext ''REPORT.XML'' = ''.XML''
   \<and> filter (\<lambda>e. \<not> is_Debugf e) (snd (LoadXMLReport example_parseTimeStamp
        (example_world\<lparr>ReadDir := \<lambda>d. Inr example_archive\<rparr>) ''reports'')) =
       [CallReadDir ''reports'',
        CallOpen ''reports/a.xml'' (Some (File ''reports/a.xml'')),
        CallReadAll (File ''reports/a.xml''), CallUnmarshal ''A'',
        CallClose (Some (File ''reports/a.xml''))]
   \<and> fst (LoadXMLReport example_parseTimeStamp
        (example_world\<lparr>ReadDir := \<lambda>d. Inr example_archive\<rparr>) ''reports'') =
       Inr \<lparr>xmlSuites = [suite_A]\<rparr>"
proof -
  let ?w = "example_world\<lparr>ReadDir := \<lambda>d. Inr example_archive\<rparr>"
  have named: "''reports'' \<noteq> []" by simp
  have listed: "ReadDir ?w ''reports'' = Inr example_archive"
    by simp
  have kept: "filter (\<lambda>f. Ext (FileInfo.Name f) = ''.xml'' \<and> \<not> IsDir f) example_archive =
      [\<lparr>FileInfo.Name = ''a.xml'', IsDir = False\<rparr>]"
    and skipped: "filter (\<lambda>f. Ext (FileInfo.Name f) \<noteq> ''.xml'' \<or> IsDir f) example_archive =
      [\<lparr>FileInfo.Name = ''REPORT.XML'', IsDir = False\<rparr>,
       \<lparr>FileInfo.Name = ''old.xml'', IsDir = True\<rparr>]"
    by (simp_all add: example_archive_def Ext_examples Ext_upper_case)
  have only_a: "LoadXMLReport example_parseTimeStamp
      (?w\<lparr>ReadDir := (ReadDir ?w)(''reports'' := Inr [\<lparr>FileInfo.Name = ''a.xml'', IsDir = False\<rparr>])\<rparr>)
      ''reports'' =
      (Inr \<lparr>xmlSuites = [suite_A]\<rparr>,
       [CallReadDir ''reports'',
        CallOpen ''reports/a.xml'' (Some (File ''reports/a.xml'')),
        CallReadAll (File ''reports/a.xml''), CallUnmarshal ''A'',
        CallClose (Some (File ''reports/a.xml''))])"
    by (simp add: LoadXMLReport_def parseXMLReport_def Let_def loop_body_def Ext_examples
        example_world_def run_deferred_def sort_Slice_def)
  note load = Load_decodes_only_xml_files [OF named listed, of example_parseTimeStamp]
  from load have "filter is_Debugf (snd (LoadXMLReport example_parseTimeStamp ?w ''reports'')) =
      map (\<lambda>f. Debugf (''not report file '' @ [CHR 0x27] @ FileInfo.Name f @ [CHR 0x27]))
        (filter (\<lambda>f. Ext (FileInfo.Name f) \<noteq> ''.xml'' \<or> IsDir f) example_archive)"
    by (elim conjE)
  then have debug: "filter is_Debugf (snd (LoadXMLReport example_parseTimeStamp ?w ''reports'')) =
      [Debugf (''not report file '' @ [CHR 0x27] @ ''REPORT.XML'' @ [CHR 0x27]),
       Debugf (''not report file '' @ [CHR 0x27] @ ''old.xml'' @ [CHR 0x27])]"
    unfolding skipped by simp
  from load have "fst (LoadXMLReport example_parseTimeStamp ?w ''reports'') =
      fst (LoadXMLReport example_parseTimeStamp
        (?w\<lparr>ReadDir := (ReadDir ?w)(''reports'' :=
           Inr (filter (\<lambda>f. Ext (FileInfo.Name f) = ''.xml'' \<and> \<not> IsDir f) example_archive))\<rparr>)
        ''reports'')"
    by (elim conjE)
  then have result: "fst (LoadXMLReport example_parseTimeStamp ?w ''reports'') =
      Inr \<lparr>xmlSuites = [suite_A]\<rparr>"
    unfolding kept only_a by simp
  from load have "filter (\<lambda>e. \<not> is_Debugf e)
      (snd (LoadXMLReport example_parseTimeStamp ?w ''reports'')) =
      snd (LoadXMLReport example_parseTimeStamp
        (?w\<lparr>ReadDir := (ReadDir ?w)(''reports'' :=
           Inr (filter (\<lambda>f. Ext (FileInfo.Name f) = ''.xml'' \<and> \<not> IsDir f) example_archive))\<rparr>)
        ''reports'')"
    by (elim conjE)
  then have others: "filter (\<lambda>e. \<not> is_Debugf e)
      (snd (LoadXMLReport example_parseTimeStamp ?w ''reports'')) =
      [CallReadDir ''reports'',
       CallOpen ''reports/a.xml'' (Some (File ''reports/a.xml'')),
       CallReadAll (File ''reports/a.xml''), CallUnmarshal ''A'',
       CallClose (Some (File ''reports/a.xml''))]"
    unfolding kept only_a by simp
  from listed debug Ext_upper_case others result show ?thesis
    by (intro conjI)
qed

text \<open>
  Claim C8. The claim is that each file is closed before the loader opens the
  next one. The \<open>defer\<close> statement sits in the body of the loop, and a deferred
  call runs when \<open>parseXMLReport\<close> returns, not at the end of the round. On the
  example directory the events are as follows: the file of suite B is still open
  when the file of suite A is opened, and all three \<open>Close\<close> calls come after
  the last entry.
\<close>

theorem file_held_while_next_is_opened:
  "snd (LoadXMLReport example_parseTimeStamp example_world ''reports'') =
     [CallReadDir ''reports'',
      CallOpen ''reports/b.xml'' (Some (File ''reports/b.xml'')),
      CallReadAll (File ''reports/b.xml''), CallUnmarshal ''B'',
      Debugf (''not report file '' @ [CHR 0x27] @ ''notes.txt'' @ [CHR 0x27]),
      CallOpen ''reports/a.xml'' (Some (File ''reports/a.xml'')),
      CallReadAll (File ''reports/a.xml''), CallUnmarshal ''A'',
      CallOpen ''reports/bad.xml'' (Some (File ''reports/bad.xml'')),
      CallReadAll (File ''reports/bad.xml''), CallUnmarshal ''<'',
      LogError (UnmarshalError ''unexpected EOF''),
      Debugf (''not report file '' @ [CHR 0x27] @ ''old.xml'' @ [CHR 0x27]),
      CallClose (Some (File ''reports/bad.xml'')),
      CallClose (Some (File ''reports/a.xml'')),
      CallClose (Some (File ''reports/b.xml''))]
   \<and> held_at_next_open [] (snd (LoadXMLReport example_parseTimeStamp example_world ''reports''))
   \<and> open_files []
        [CallReadDir ''reports'',
         CallOpen ''reports/b.xml'' (Some (File ''reports/b.xml'')),
         CallReadAll (File ''reports/b.xml''), CallUnmarshal ''B'',
         Debugf (''not report file '' @ [CHR 0x27] @ ''notes.txt'' @ [CHR 0x27])]
       = [File ''reports/b.xml'']"
  by (simp add: example_load)

text \<open>
  Claim C9. When \<open>HasTestCaseFailure\<close> answers false for a pair of indices,
  \<open>TestCaseFailureDetails\<close> for the same pair reads \<open>Details\<close> through a nil
  pointer and panics; it returns no log message.
\<close>

theorem FailureDetails_without_failure_panics:
  assumes "HasTestCaseFailure report i j = Inr False"
  shows "TestCaseFailureDetails parseTimeStamp secondsToDuration report i j =
           Inl NilPointerDereference"
  using assms
  by (auto simp: HasTestCaseFailure_def TestCaseFailureDetails_def Let_def
      split: sum.splits option.splits)

theorem FailureDetails_without_failure_panics_witness:
  "HasTestCaseFailure example_report 0 0 = Inr False
   \<and> TestCaseFailureDetails example_parseTimeStamp example_secondsToDuration example_report 0 0 =
       Inl NilPointerDereference"
proof -
  have none: "HasTestCaseFailure example_report 0 0 = Inr False"
    by (simp add: HasTestCaseFailure_def index_def example_report_def suite_A_def case_ok_def)
  show ?thesis
    using FailureDetails_without_failure_panics [OF none, of example_parseTimeStamp example_secondsToDuration]
      none
    by simp
qed

text \<open>
  Claim C10. On a directory that can be listed and in which no entry
  contributes a suite, \<open>LoadXMLReport\<close> succeeds with a report of no suites, and
  on that report both \<open>LaunchStartTime\<close> and \<open>LaunchEndTime\<close> panic with an
  index out of range.
\<close>

theorem empty_report_launch_times_panic:
  assumes "reportDir \<noteq> []" and "ReadDir w reportDir = Inr files"
    and "\<forall>f \<in> set files. decoded_suite w reportDir f = None"
  shows "\<exists>report. fst (LoadXMLReport parseTimeStamp w reportDir) = Inr report
           \<and> SuitesCount report = 0
           \<and> LaunchStartTime parseTimeStamp report = Inl IndexOutOfRange
           \<and> LaunchEndTime parseTimeStamp secondsToDuration report = Inl IndexOutOfRange"
proof -
  from assms(3) have "List.map_filter (decoded_suite w reportDir) files = []"
    by (induction files) (simp_all add: List.map_filter_simps)
  then have "fst (LoadXMLReport parseTimeStamp w reportDir) = Inr \<lparr>xmlSuites = []\<rparr>"
    by (simp add: Load_listed [OF assms(1,2)] sort_Slice_def)
  then show ?thesis
    by (simp add: SuitesCount_def LaunchStartTime_def LaunchEndTime_def index_def)
qed

theorem empty_report_launch_times_panic_witness:
  "ReadDir example_world ''drafts'' = Inr example_drafts
   \<and> decoded_suite example_world ''drafts'' \<lparr>FileInfo.Name = ''notes.txt'', IsDir = False\<rparr> = None
   \<and> decoded_suite example_world ''drafts'' \<lparr>FileInfo.Name = ''bad.xml'', IsDir = False\<rparr> = None
   \<and> (\<exists>report. fst (LoadXMLReport example_parseTimeStamp example_world ''drafts'') = Inr report
         \<and> SuitesCount report = 0
         \<and> LaunchStartTime example_parseTimeStamp report = Inl IndexOutOfRange
         \<and> LaunchEndTime example_parseTimeStamp example_secondsToDuration report =
             Inl IndexOutOfRange)"
proof -
  have named: "''drafts'' \<noteq> []" by simp
  have listed: "ReadDir example_world ''drafts'' = Inr example_drafts"
    by (simp add: example_world_def)
  have text_file: "decoded_suite example_world ''drafts'' \<lparr>FileInfo.Name = ''notes.txt'', IsDir = False\<rparr> = None"
    and bad: "decoded_suite example_world ''drafts'' \<lparr>FileInfo.Name = ''bad.xml'', IsDir = False\<rparr> = None"
    by (simp_all add: decoded_suite_def is_report_file_def Ext_examples example_world_def)
  then have none: "\<forall>f \<in> set example_drafts. decoded_suite example_world ''drafts'' f = None"
    by (simp add: example_drafts_def)
  show ?thesis
    using empty_report_launch_times_panic [OF named listed none,
        of example_parseTimeStamp example_secondsToDuration]
      listed text_file bad
    by simp
qed

end
